theory Spec2Isabelle
  imports Main
begin

section \<open>The Python built-ins the script relies on\<close>

text \<open>
  The script \<^verbatim>\<open>src/workflows/generic_bump_version.py\<close> works on Python strings and
  unbounded integers. Strings are modelled as \<^typ>\<open>string\<close>, each character standing
  for the code point of its number, so they cover the texts over the code points 0 to 255;
  a text with a character beyond that range has no counterpart here. Integers are
  \<^typ>\<open>int\<close>; the interpreter's configurable cap on the number of digits converted
  between \<^verbatim>\<open>int\<close> and \<^verbatim>\<open>str\<close> is not part of the model. Every exception the
  modelled code can raise is a value of \<open>error\<close>.
\<close>

datatype error = ValueError | IndexError | AttributeError

text \<open>\<^verbatim>\<open>s.find(c)\<close> for a one-character \<^verbatim>\<open>c\<close>: the lowest index, or \<open>-1\<close>.\<close>

fun find_str :: "string \<Rightarrow> char \<Rightarrow> int" where
  "find_str [] c = - 1"
| "find_str (x # xs) c =
     (if x = c then 0
      else (let r = find_str xs c in if r < 0 then - 1 else r + 1))"

text \<open>
  \<^verbatim>\<open>s.split(c)\<close> for a one-character separator: every occurrence splits, empty pieces
  are kept, and the result is never empty (\<^verbatim>\<open>"".split(".") == [""]\<close>).
\<close>

fun split_str :: "string \<Rightarrow> char \<Rightarrow> string list" where
  "split_str [] c = [[]]"
| "split_str (x # xs) c =
     (if x = c then [] # split_str xs c
      else (case split_str xs c of
              [] \<Rightarrow> [[x]]
            | w # ws \<Rightarrow> (x # w) # ws))"

text \<open>\<^verbatim>\<open>xs[i]\<close> with a literal index \<open>i \<ge> 0\<close>: out of range raises \<^verbatim>\<open>IndexError\<close>.\<close>

definition subscript :: "'a list \<Rightarrow> nat \<Rightarrow> error + 'a" where
  "subscript xs i = (if i < length xs then Inr (xs ! i) else Inl IndexError)"

text \<open>\<^verbatim>\<open>a, b, c = xs\<close>: any other length raises \<^verbatim>\<open>ValueError\<close>.\<close>

definition unpack3 :: "'a list \<Rightarrow> error + ('a \<times> 'a \<times> 'a)" where
  "unpack3 xs = (case xs of [a, b, c] \<Rightarrow> Inr (a, b, c) | _ \<Rightarrow> Inl ValueError)"

text \<open>
  \<^verbatim>\<open>int(s)\<close> on a string, base 10: white space is skipped on both sides, one sign
  \<^verbatim>\<open>+\<close> or \<^verbatim>\<open>-\<close> may come first, then at least one digit; single underscores may
  stand between digits. Anything else raises \<^verbatim>\<open>ValueError\<close>. Among the code points
  0 to 255 the white space \<^verbatim>\<open>int\<close> skips is tab, line feed, vertical tab, form feed,
  carriage return (9 to 13), space (32), next line (133) and no-break space (160); the
  decimal digits are \<^verbatim>\<open>0\<close> to \<^verbatim>\<open>9\<close> (48 to 57).
\<close>

definition is_space :: "char \<Rightarrow> bool" where
  "is_space c =
     (let n = (of_char c :: nat) in (9 \<le> n \<and> n \<le> 13) \<or> n = 32 \<or> n = 133 \<or> n = 160)"

definition is_digit :: "char \<Rightarrow> bool" where
  "is_digit c = (let n = (of_char c :: nat) in 48 \<le> n \<and> n \<le> 57)"

definition digit_val :: "char \<Rightarrow> nat" where
  "digit_val c = of_char c - 48"

definition is_digit_or_underscore :: "char \<Rightarrow> bool" where
  "is_digit_or_underscore c = (is_digit c \<or> c = CHR ''_'')"

fun double_underscore :: "string \<Rightarrow> bool" where
  "double_underscore (x # y # zs) =
     ((x = CHR ''_'' \<and> y = CHR ''_'') \<or> double_underscore (y # zs))"
| "double_underscore _ = False"

definition digits_value :: "string \<Rightarrow> nat" where
  "digits_value ds = foldl (\<lambda>a c. 10 * a + digit_val c) 0 ds"

definition py_int :: "string \<Rightarrow> error + int" where
  "py_int s =
     (let t = dropWhile is_space s;
          neg = (t \<noteq> [] \<and> hd t = CHR ''-'');
          u = (if t \<noteq> [] \<and> (hd t = CHR ''+'' \<or> hd t = CHR ''-'') then tl t else t);
          body = takeWhile is_digit_or_underscore u;
          rest = dropWhile is_digit_or_underscore u
      in if body \<noteq> [] \<and> hd body \<noteq> CHR ''_'' \<and> last body \<noteq> CHR ''_''
            \<and> \<not> double_underscore body \<and> list_all is_space rest
         then Inr ((if neg then - 1 else 1) * int (digits_value (filter is_digit body)))
         else Inl ValueError)"

text \<open>
  \<^verbatim>\<open>f"{n}"\<close> for an integer \<^verbatim>\<open>n\<close>: the decimal digits without leading zeros, \<^verbatim>\<open>-\<close>
  in front of a negative number.
\<close>

definition digit_chr :: "nat \<Rightarrow> char" where
  "digit_chr d = char_of (48 + d)"

fun str_nat :: "nat \<Rightarrow> string" where
  "str_nat n =
     (if n < 10 then [digit_chr n] else str_nat (n div 10) @ [digit_chr (n mod 10)])"

declare str_nat.simps [simp del]

definition str_int :: "int \<Rightarrow> string" where
  "str_int i = (if i < 0 then CHR ''-'' # str_nat (nat (- i)) else str_nat (nat i))"


section \<open>The class \<^verbatim>\<open>GenericVersion\<close>\<close>

text \<open>The enumeration \<^verbatim>\<open>VersionType\<close> and its member values.\<close>

datatype VersionType = MAJOR | MINOR | PATCH | BUILD

fun VersionType_value :: "VersionType \<Rightarrow> string" where
  "VersionType_value MAJOR = ''major''"
| "VersionType_value MINOR = ''minor''"
| "VersionType_value PATCH = ''patch''"
| "VersionType_value BUILD = ''build''"

text \<open>\<^verbatim>\<open>VersionType._value2member_map_\<close>: from a value to its member.\<close>

definition value2member_map :: "string \<rightharpoonup> VersionType" where
  "value2member_map =
     map_of (map (\<lambda>m. (VersionType_value m, m)) [MAJOR, MINOR, PATCH, BUILD])"

text \<open>
  The object's attributes. \<^verbatim>\<open>__init__\<close> only annotates \<^verbatim>\<open>bump_type\<close> and
  \<^verbatim>\<open>next_version\<close>, so each is absent (\<open>None\<close>) until a method assigns it, and
  reading an absent attribute raises \<^verbatim>\<open>AttributeError\<close>. The file access of
  \<^verbatim>\<open>_get_current_version\<close> and \<^verbatim>\<open>write_new_version\<close> is outside the model: the
  methods below start from an object whose \<^verbatim>\<open>current_version\<close> is given.
\<close>

record GenericVersion =
  filename :: string
  bump_type :: "VersionType option"
  current_version :: string
  next_version :: "string option"

text \<open>
  \<^verbatim>\<open>__init__\<close> (lines 31-38), with the text that \<^verbatim>\<open>_get_current_version\<close> hands
  back as its argument.
\<close>

definition init :: "string \<Rightarrow> GenericVersion" where
  "init cur =
     \<lparr>filename = ''VERSION'', bump_type = None, current_version = cur, next_version = None\<rparr>"

text \<open>\<^verbatim>\<open>set_bump_type\<close> (lines 40-54).\<close>

definition set_bump_type :: "GenericVersion \<Rightarrow> string \<Rightarrow> error + GenericVersion" where
  "set_bump_type self bt =
     (if value2member_map bt = None then Inl ValueError
      else Inr (self\<lparr>bump_type := value2member_map bt\<rparr>))"

subsection \<open>\<^verbatim>\<open>_get_next_version_with_build\<close> (lines 81-113)\<close>

text \<open>Lines 88-94: the four local integers read from the text.\<close>

definition with_build_parse :: "string \<Rightarrow> error + (int \<times> int \<times> int \<times> int)" where
  "with_build_parse cur =
     (case subscript (split_str cur CHR ''+'') 1 of Inl e \<Rightarrow> Inl e | Inr build_str \<Rightarrow>
      (case subscript (split_str cur CHR ''+'') 0 of Inl e \<Rightarrow> Inl e | Inr version_str \<Rightarrow>
       (case unpack3 (split_str version_str CHR ''.'') of Inl e \<Rightarrow> Inl e
        | Inr (major_str, minor_str, patch_str) \<Rightarrow>
        (case py_int major_str of Inl e \<Rightarrow> Inl e | Inr major \<Rightarrow>
         (case py_int minor_str of Inl e \<Rightarrow> Inl e | Inr minor \<Rightarrow>
          (case py_int patch_str of Inl e \<Rightarrow> Inl e | Inr patch \<Rightarrow>
           (case py_int build_str of Inl e \<Rightarrow> Inl e | Inr build \<Rightarrow>
              Inr (major, minor, patch, build))))))))"

text \<open>Lines 96-110: the \<^verbatim>\<open>match\<close> statement, in the order of its cases.\<close>

fun with_build_match ::
  "VersionType \<Rightarrow> int \<times> int \<times> int \<times> int \<Rightarrow> int \<times> int \<times> int \<times> int" where
  "with_build_match BUILD (major, minor, patch, build) = (major, minor, patch, build + 1)"
| "with_build_match PATCH (major, minor, patch, build) = (major, minor, patch + 1, 1)"
| "with_build_match MINOR (major, minor, patch, build) = (major, minor + 1, 0, 1)"
| "with_build_match MAJOR (major, minor, patch, build) = (major + 1, 0, 0, 1)"

text \<open>Line 112: the f-string.\<close>

fun with_build_format :: "int \<times> int \<times> int \<times> int \<Rightarrow> string" where
  "with_build_format (major, minor, patch, build) =
     str_int major @ ''.'' @ str_int minor @ ''.'' @ str_int patch @ ''+'' @ str_int build"

definition get_next_version_with_build ::
  "GenericVersion \<Rightarrow> error + (string \<times> GenericVersion)" where
  "get_next_version_with_build self =
     (case with_build_parse (current_version self) of Inl e \<Rightarrow> Inl e | Inr v \<Rightarrow>
      (case bump_type self of None \<Rightarrow> Inl AttributeError | Some k \<Rightarrow>
       (let nv = with_build_format (with_build_match k v)
        in Inr (nv, self\<lparr>next_version := Some nv\<rparr>))))"

subsection \<open>\<^verbatim>\<open>_get_next_version_without_build\<close> (lines 115-140)\<close>

text \<open>Lines 122-126: the three local integers read from the text.\<close>

definition without_build_parse :: "string \<Rightarrow> error + (int \<times> int \<times> int)" where
  "without_build_parse cur =
     (case unpack3 (split_str cur CHR ''.'') of Inl e \<Rightarrow> Inl e
      | Inr (major_str, minor_str, patch_str) \<Rightarrow>
      (case py_int major_str of Inl e \<Rightarrow> Inl e | Inr major \<Rightarrow>
       (case py_int minor_str of Inl e \<Rightarrow> Inl e | Inr minor \<Rightarrow>
        (case py_int patch_str of Inl e \<Rightarrow> Inl e | Inr patch \<Rightarrow>
           Inr (major, minor, patch)))))"

text \<open>
  Lines 128-137: the \<^verbatim>\<open>match\<close> statement. It has no case for \<^verbatim>\<open>VersionType.BUILD\<close>,
  and a \<^verbatim>\<open>match\<close> without a matching case does nothing.
\<close>

fun without_build_match :: "VersionType \<Rightarrow> int \<times> int \<times> int \<Rightarrow> int \<times> int \<times> int" where
  "without_build_match PATCH (major, minor, patch) = (major, minor, patch + 1)"
| "without_build_match MINOR (major, minor, patch) = (major, minor + 1, 0)"
| "without_build_match MAJOR (major, minor, patch) = (major + 1, 0, 0)"
| "without_build_match BUILD (major, minor, patch) = (major, minor, patch)"

text \<open>Line 139: the f-string.\<close>

fun without_build_format :: "int \<times> int \<times> int \<Rightarrow> string" where
  "without_build_format (major, minor, patch) =
     str_int major @ ''.'' @ str_int minor @ ''.'' @ str_int patch"

definition get_next_version_without_build ::
  "GenericVersion \<Rightarrow> error + (string \<times> GenericVersion)" where
  "get_next_version_without_build self =
     (case without_build_parse (current_version self) of Inl e \<Rightarrow> Inl e | Inr v \<Rightarrow>
      (case bump_type self of None \<Rightarrow> Inl AttributeError | Some k \<Rightarrow>
       (let nv = without_build_format (without_build_match k v)
        in Inr (nv, self\<lparr>next_version := Some nv\<rparr>))))"

subsection \<open>\<^verbatim>\<open>get_next_version\<close> (lines 68-79)\<close>

definition get_next_version :: "GenericVersion \<Rightarrow> error + (string \<times> GenericVersion)" where
  "get_next_version self =
     (if find_str (current_version self) CHR ''+'' > 0
      then get_next_version_with_build self
      else get_next_version_without_build self)"

section \<open>Notions used in the statements\<close>

text \<open>
  Both processing methods end with \<^verbatim>\<open>self.next_version = ...; return self.next_version\<close>:
  a call that returns the string \<open>s\<close> leaves the object with \<open>s\<close> stored.
\<close>

definition returns :: "GenericVersion \<Rightarrow> string \<Rightarrow> error + (string \<times> GenericVersion)" where
  "returns self s = Inr (s, self\<lparr>next_version := Some s\<rparr>)"

text \<open>
  The text before the first \<^verbatim>\<open>+\<close>, and the text between the first \<^verbatim>\<open>+\<close> and the
  next one (or the end).
\<close>

definition version_part :: "string \<Rightarrow> string" where
  "version_part cur = takeWhile (\<lambda>c. c \<noteq> CHR ''+'') cur"

definition build_part :: "string \<Rightarrow> string" where
  "build_part cur =
     takeWhile (\<lambda>c. c \<noteq> CHR ''+'') (tl (dropWhile (\<lambda>c. c \<noteq> CHR ''+'') cur))"

text \<open>
  The fields the chosen method converts with \<^verbatim>\<open>int\<close>: the pieces between the dots
  of the version part and, on the path with build, the build part. A text is malformed
  when there are not exactly three such pieces or \<^verbatim>\<open>int\<close> rejects one of the fields.
\<close>

definition version_fields :: "string \<Rightarrow> string list" where
  "version_fields cur =
     split_str (if 0 < find_str cur CHR ''+'' then version_part cur else cur) CHR ''.''"

definition number_fields :: "string \<Rightarrow> string list" where
  "number_fields cur =
     version_fields cur @ (if 0 < find_str cur CHR ''+'' then [build_part cur] else [])"

definition malformed :: "string \<Rightarrow> bool" where
  "malformed cur =
     (length (version_fields cur) \<noteq> 3 \<or> list_ex (\<lambda>f. isl (py_int f)) (number_fields cur))"

text \<open>The lexicographic order on the tuples of fields, most significant field first.\<close>

fun lex_less3 :: "int \<times> int \<times> int \<Rightarrow> int \<times> int \<times> int \<Rightarrow> bool" where
  "lex_less3 (a, b, c) (a', b', c') =
     (a < a' \<or> (a = a' \<and> (b < b' \<or> (b = b' \<and> c < c'))))"

fun lex_less4 :: "int \<times> int \<times> int \<times> int \<Rightarrow> int \<times> int \<times> int \<times> int \<Rightarrow> bool" where
  "lex_less4 (a, b, c, d) (a', b', c', d') =
     (a < a' \<or> (a = a' \<and> (b < b' \<or> (b = b' \<and> (c < c' \<or> (c = c' \<and> d < d'))))))"

section \<open>Facts about the built-ins\<close>

subsection \<open>Splitting and searching\<close>

lemma split_str_not_Nil: "split_str s c \<noteq> []"
  by (induction s) (auto split: list.splits)

lemma split_str_no_sep: "c \<notin> set s \<Longrightarrow> split_str s c = [s]"
  by (induction s) auto

lemma split_str_append: "c \<notin> set a \<Longrightarrow> split_str (a @ c # b) c = a # split_str b c"
  by (induction a) auto

lemma hd_split_str: "hd (split_str s c) = takeWhile (\<lambda>x. x \<noteq> c) s"
  using split_str_not_Nil [of _ c]
  by (induction s) (auto split: list.splits)

lemma tl_split_str:
  "c \<in> set s \<Longrightarrow> tl (split_str s c) = split_str (tl (dropWhile (\<lambda>x. x \<noteq> c) s)) c"
  using split_str_not_Nil [of _ c]
  by (induction s) (auto split: list.splits)

lemma split_str_two:
  assumes "c \<in> set s"
  shows "subscript (split_str s c) 0 = Inr (takeWhile (\<lambda>x. x \<noteq> c) s)"
    and "subscript (split_str s c) 1
           = Inr (takeWhile (\<lambda>x. x \<noteq> c) (tl (dropWhile (\<lambda>x. x \<noteq> c) s)))"
proof -
  let ?r = "tl (dropWhile (\<lambda>x. x \<noteq> c) s)"
  obtain w ws where w: "split_str s c = w # ws"
    using split_str_not_Nil [of s c] by (cases "split_str s c") auto
  obtain v vs where v: "split_str ?r c = v # vs"
    using split_str_not_Nil [of ?r c] by (cases "split_str ?r c") auto
  from tl_split_str [OF assms] w v have ws: "ws = v # vs" by simp
  from hd_split_str [of s c] w have "w = takeWhile (\<lambda>x. x \<noteq> c) s" by simp
  moreover from hd_split_str [of ?r c] v have "v = takeWhile (\<lambda>x. x \<noteq> c) ?r" by simp
  ultimately show "subscript (split_str s c) 0 = Inr (takeWhile (\<lambda>x. x \<noteq> c) s)"
    and "subscript (split_str s c) 1 = Inr (takeWhile (\<lambda>x. x \<noteq> c) ?r)"
    by (simp_all add: subscript_def w ws)
qed

lemma find_str_notin: "c \<notin> set s \<Longrightarrow> find_str s c = - 1"
  by (induction s) (auto simp: Let_def)

lemma find_str_in: "c \<in> set s \<Longrightarrow> 0 \<le> find_str s c"
  by (induction s) (auto simp: Let_def)

lemma find_str_pos_iff: "0 < find_str s c \<longleftrightarrow> c \<in> set s \<and> hd s \<noteq> c"
proof (cases s)
  case Nil
  then show ?thesis by simp
next
  case (Cons x xs)
  show ?thesis
  proof (cases "c \<in> set xs")
    case True
    from find_str_in [OF this] show ?thesis using Cons True by (auto simp: Let_def)
  next
    case False
    from find_str_notin [OF this] show ?thesis using Cons False by (auto simp: Let_def)
  qed
qed

lemma find_str_append: "c \<notin> set a \<Longrightarrow> find_str (a @ c # b) c = int (length a)"
  by (induction a) (auto simp: Let_def)

subsection \<open>Integers and their decimal text\<close>

lemma is_digit_digit_chr: "d < 10 \<Longrightarrow> is_digit (digit_chr d)"
  by (simp add: is_digit_def digit_chr_def Let_def)

lemma digit_val_digit_chr: "d < 10 \<Longrightarrow> digit_val (digit_chr d) = d"
  by (simp add: digit_val_def digit_chr_def)

lemma str_nat_digits: "list_all is_digit (str_nat n)"
proof (induction n rule: str_nat.induct)
  case (1 n)
  show ?case
  proof (cases "n < 10")
    case True
    then show ?thesis by (subst str_nat.simps) (simp add: is_digit_digit_chr)
  next
    case False
    with 1 show ?thesis by (subst str_nat.simps) (simp add: is_digit_digit_chr)
  qed
qed

lemma str_nat_not_Nil: "str_nat n \<noteq> []"
  by (subst str_nat.simps) simp

lemma digits_value_snoc: "digits_value (ds @ [c]) = 10 * digits_value ds + digit_val c"
  by (simp add: digits_value_def)

lemma digits_value_str_nat: "digits_value (str_nat n) = n"
proof (induction n rule: str_nat.induct)
  case (1 n)
  show ?case
  proof (cases "n < 10")
    case True
    then show ?thesis
      by (subst str_nat.simps) (simp add: digits_value_def digit_val_digit_chr)
  next
    case False
    with 1 show ?thesis
      by (subst str_nat.simps) (simp add: digits_value_snoc digit_val_digit_chr)
  qed
qed

lemma is_digit_not_special:
  assumes "is_digit c"
  shows "\<not> is_space c" "c \<noteq> CHR ''_''" "c \<noteq> CHR ''+''" "c \<noteq> CHR ''-''" "c \<noteq> CHR ''.''"
  using assms by (auto simp: is_digit_def is_space_def Let_def)

lemma minus_not_special:
  "\<not> is_space CHR ''-''" "\<not> is_digit CHR ''-''"
  by (simp_all add: is_space_def is_digit_def Let_def)

lemma digits_no_double_underscore: "list_all is_digit ds \<Longrightarrow> \<not> double_underscore ds"
  by (induction ds rule: double_underscore.induct) (auto simp: is_digit_not_special)

lemma digits_takeWhile: "list_all is_digit ds \<Longrightarrow> takeWhile is_digit_or_underscore ds = ds"
  by (induction ds) (auto simp: is_digit_or_underscore_def)

lemma digits_dropWhile: "list_all is_digit ds \<Longrightarrow> dropWhile is_digit_or_underscore ds = []"
  by (induction ds) (auto simp: is_digit_or_underscore_def)

lemma digits_filter: "list_all is_digit ds \<Longrightarrow> filter is_digit ds = ds"
  by (induction ds) auto

lemma py_int_digits:
  assumes "list_all is_digit ds" and "ds \<noteq> []"
  shows "py_int ds = Inr (int (digits_value ds))"
proof -
  from assms have hd: "is_digit (hd ds)" and lst: "is_digit (last ds)"
    by (auto simp: list_all_iff)
  from hd assms(2) have t: "dropWhile is_space ds = ds"
    by (cases ds) (auto simp: is_digit_not_special)
  show ?thesis
    unfolding py_int_def Let_def t
    using assms hd lst
    by (simp add: digits_takeWhile digits_dropWhile digits_filter
        digits_no_double_underscore is_digit_not_special)
qed

lemma py_int_minus_digits:
  assumes "list_all is_digit ds" and "ds \<noteq> []"
  shows "py_int (CHR ''-'' # ds) = Inr (- int (digits_value ds))"
proof -
  from assms have hd: "is_digit (hd ds)" and lst: "is_digit (last ds)"
    by (auto simp: list_all_iff)
  have t: "dropWhile is_space (CHR ''-'' # ds) = CHR ''-'' # ds"
    by (simp add: minus_not_special)
  show ?thesis
    unfolding py_int_def Let_def t
    using assms hd lst
    by (simp add: digits_takeWhile digits_dropWhile digits_filter
        digits_no_double_underscore is_digit_not_special)
qed

lemma py_int_str_int: "py_int (str_int i) = Inr i"
  by (simp add: str_int_def py_int_digits py_int_minus_digits str_nat_digits
      str_nat_not_Nil digits_value_str_nat)

lemma py_int_Inl: "py_int s = Inl e \<Longrightarrow> e = ValueError"
  by (cases e) (auto simp: py_int_def Let_def split: if_splits)

lemma py_int_isl: "isl (py_int s) \<longleftrightarrow> py_int s = Inl ValueError"
  by (cases "py_int s") (auto dest: py_int_Inl)

lemma str_int_chars: "c \<in> set (str_int i) \<Longrightarrow> is_digit c \<or> c = CHR ''-''"
  using str_nat_digits [of "nat i"] str_nat_digits [of "nat (- i)"]
  by (auto simp: str_int_def list_all_iff split: if_splits)

lemma str_int_no_dot: "CHR ''.'' \<notin> set (str_int i)"
  using str_int_chars [of "CHR ''.''" i] by (auto simp: is_digit_def Let_def)

lemma str_int_no_plus: "CHR ''+'' \<notin> set (str_int i)"
  using str_int_chars [of "CHR ''+''" i] by (auto simp: is_digit_def Let_def)

lemma unpack3_three: "unpack3 [a, b, c] = Inr (a, b, c)"
  by (simp add: unpack3_def)

lemma unpack3_Inr: "unpack3 xs = Inr (a, b, c) \<longleftrightarrow> xs = [a, b, c]"
  by (auto simp: unpack3_def split: list.splits)

lemma unpack3_Inl: "unpack3 xs = Inl e \<longleftrightarrow> length xs \<noteq> 3 \<and> e = ValueError"
  by (auto simp: unpack3_def split: list.splits)

section \<open>Facts about the methods\<close>

subsection \<open>The f-strings and what the parsing lines read back from them\<close>

lemma split_without_build_format:
  "split_str (without_build_format (a, b, c)) CHR ''.'' = [str_int a, str_int b, str_int c]"
  by (simp add: split_str_append split_str_no_sep str_int_no_dot)

lemma without_build_format_no_plus: "CHR ''+'' \<notin> set (without_build_format v)"
  by (cases v) (simp add: str_int_no_plus)

lemma without_build_roundtrip: "without_build_parse (without_build_format v) = Inr v"
  by (cases v)
    (simp add: without_build_parse_def split_without_build_format unpack3_def py_int_str_int
      del: without_build_format.simps)

lemma with_build_format_eq:
  "with_build_format (a, b, c, d) = without_build_format (a, b, c) @ CHR ''+'' # str_int d"
  by simp

lemma split_with_build_format:
  "split_str (with_build_format (a, b, c, d)) CHR ''+''
     = [without_build_format (a, b, c), str_int d]"
  unfolding with_build_format_eq
  by (simp add: split_str_append split_str_no_sep str_int_no_plus without_build_format_no_plus
      del: without_build_format.simps)

lemma with_build_roundtrip: "with_build_parse (with_build_format v) = Inr v"
proof -
  obtain a b c d where v: "v = (a, b, c, d)" by (cases v) auto
  show ?thesis
    unfolding v with_build_parse_def split_with_build_format
    by (simp add: subscript_def split_without_build_format unpack3_def py_int_str_int
        del: without_build_format.simps with_build_format.simps)
qed

lemma find_with_build_format: "0 < find_str (with_build_format v) CHR ''+''"
proof -
  obtain a b c d where v: "v = (a, b, c, d)" by (cases v) auto
  have "find_str (with_build_format v) CHR ''+'' = int (length (without_build_format (a, b, c)))"
    unfolding v with_build_format_eq
    by (rule find_str_append) (rule without_build_format_no_plus)
  moreover have "without_build_format (a, b, c) \<noteq> []" by simp
  ultimately show ?thesis by simp
qed

lemma find_without_build_format: "find_str (without_build_format v) CHR ''+'' = - 1"
  by (rule find_str_notin) (rule without_build_format_no_plus)

lemma count_with_build_format: "count_list (with_build_format v) CHR ''+'' = 1"
proof -
  obtain a b c d where v: "v = (a, b, c, d)" by (cases v) auto
  have "count_list (without_build_format (a, b, c)) CHR ''+'' = 0"
    using without_build_format_no_plus [of "(a, b, c)"]
    by (simp del: without_build_format.simps)
  moreover have "count_list (str_int d) CHR ''+'' = 0"
    using str_int_no_plus [of d] by simp
  ultimately show ?thesis
    unfolding v with_build_format_eq by (simp del: without_build_format.simps)
qed

subsection \<open>The branch taken and the result of a successful call\<close>

lemma dispatch_with_build:
  "0 < find_str (current_version self) CHR ''+'' \<Longrightarrow>
   with_build_parse (current_version self) = Inr v \<Longrightarrow> bump_type self = Some k \<Longrightarrow>
   get_next_version self = returns self (with_build_format (with_build_match k v))"
  by (simp add: get_next_version_def get_next_version_with_build_def returns_def Let_def)

lemma dispatch_without_build:
  "\<not> 0 < find_str (current_version self) CHR ''+'' \<Longrightarrow>
   without_build_parse (current_version self) = Inr v \<Longrightarrow> bump_type self = Some k \<Longrightarrow>
   get_next_version self = returns self (without_build_format (without_build_match k v))"
  by (simp add: get_next_version_def get_next_version_without_build_def returns_def Let_def)

lemma get_next_version_with_build_Inr:
  assumes "get_next_version_with_build self = Inr (s, self')"
  obtains v k where "with_build_parse (current_version self) = Inr v"
    and "bump_type self = Some k" and "s = with_build_format (with_build_match k v)"
    and "self' = self\<lparr>next_version := Some s\<rparr>"
  using assms
  by (auto simp: get_next_version_with_build_def Let_def split: sum.splits option.splits)

lemma get_next_version_without_build_Inr:
  assumes "get_next_version_without_build self = Inr (s, self')"
  obtains v k where "without_build_parse (current_version self) = Inr v"
    and "bump_type self = Some k" and "s = without_build_format (without_build_match k v)"
    and "self' = self\<lparr>next_version := Some s\<rparr>"
  using assms
  by (auto simp: get_next_version_without_build_def Let_def split: sum.splits option.splits)

lemma lex_less4_match: "lex_less4 v (with_build_match k v)"
  by (cases v; cases k) simp_all

lemma lex_less3_match: "k \<noteq> BUILD \<Longrightarrow> lex_less3 v (without_build_match k v)"
  by (cases v; cases k) simp_all

subsection \<open>When the parsing lines raise\<close>

lemma without_build_parse_cases:
  "without_build_parse cur =
     (if length (split_str cur CHR ''.'') \<noteq> 3
         \<or> list_ex (\<lambda>f. isl (py_int f)) (split_str cur CHR ''.'')
      then Inl ValueError else without_build_parse cur)
   \<and> (isl (without_build_parse cur) \<longleftrightarrow>
        length (split_str cur CHR ''.'') \<noteq> 3
         \<or> list_ex (\<lambda>f. isl (py_int f)) (split_str cur CHR ''.''))"
proof (cases "unpack3 (split_str cur CHR ''.'')")
  case (Inl e)
  then have "length (split_str cur CHR ''.'') \<noteq> 3" and "e = ValueError"
    by (simp_all add: unpack3_Inl)
  with Inl show ?thesis
    by (simp add: without_build_parse_def)
next
  case (Inr t)
  obtain a b c where t: "t = (a, b, c)" by (cases t) auto
  from Inr have xs: "split_str cur CHR ''.'' = [a, b, c]"
    unfolding t unpack3_Inr .
  show ?thesis
    unfolding without_build_parse_def xs unpack3_three
    by (auto simp: py_int_isl split: sum.splits dest: py_int_Inl)
qed

lemma with_build_parse_cases:
  assumes "CHR ''+'' \<in> set cur"
  shows "with_build_parse cur =
     (if length (split_str (version_part cur) CHR ''.'') \<noteq> 3
         \<or> list_ex (\<lambda>f. isl (py_int f)) (split_str (version_part cur) CHR ''.'' @ [build_part cur])
      then Inl ValueError else with_build_parse cur)
   \<and> (isl (with_build_parse cur) \<longleftrightarrow>
        length (split_str (version_part cur) CHR ''.'') \<noteq> 3
         \<or> list_ex (\<lambda>f. isl (py_int f)) (split_str (version_part cur) CHR ''.'' @ [build_part cur]))"
proof -
  note sub = split_str_two [OF assms, folded version_part_def build_part_def]
  show ?thesis
  proof (cases "unpack3 (split_str (version_part cur) CHR ''.'')")
    case (Inl e)
    then have "length (split_str (version_part cur) CHR ''.'') \<noteq> 3" and "e = ValueError"
      by (simp_all add: unpack3_Inl)
    with Inl show ?thesis
      unfolding with_build_parse_def sub by simp
  next
    case (Inr t)
    obtain a b c where t: "t = (a, b, c)" by (cases t) auto
    from Inr have xs: "split_str (version_part cur) CHR ''.'' = [a, b, c]"
      unfolding t unpack3_Inr .
    show ?thesis
      unfolding with_build_parse_def sub
      by (auto simp: xs unpack3_three py_int_isl split: sum.splits dest: py_int_Inl)
  qed
qed

lemma parse_malformed:
  "(if 0 < find_str cur CHR ''+'' then isl (with_build_parse cur) else isl (without_build_parse cur))
     \<longleftrightarrow> malformed cur"
  "0 < find_str cur CHR ''+'' \<Longrightarrow> malformed cur \<Longrightarrow> with_build_parse cur = Inl ValueError"
  "\<not> 0 < find_str cur CHR ''+'' \<Longrightarrow> malformed cur \<Longrightarrow> without_build_parse cur = Inl ValueError"
proof -
  have w: "isl (without_build_parse cur) \<longleftrightarrow> malformed cur" if "\<not> 0 < find_str cur CHR ''+''"
    using that without_build_parse_cases [of cur]
    by (simp add: malformed_def version_fields_def number_fields_def)
  have b: "isl (with_build_parse cur) \<longleftrightarrow> malformed cur" if "0 < find_str cur CHR ''+''"
  proof -
    from that have "CHR ''+'' \<in> set cur" by (simp add: find_str_pos_iff)
    from with_build_parse_cases [OF this] that show ?thesis
      by (simp add: malformed_def version_fields_def number_fields_def)
  qed
  from w b show "(if 0 < find_str cur CHR ''+'' then isl (with_build_parse cur)
     else isl (without_build_parse cur)) \<longleftrightarrow> malformed cur"
    by simp
  show "with_build_parse cur = Inl ValueError" if "0 < find_str cur CHR ''+''" "malformed cur"
  proof -
    from that have "CHR ''+'' \<in> set cur" by (simp add: find_str_pos_iff)
    from with_build_parse_cases [OF this] b that show ?thesis
      by metis
  qed
  show "without_build_parse cur = Inl ValueError" if "\<not> 0 < find_str cur CHR ''+''" "malformed cur"
    using without_build_parse_cases [of cur] w that by metis
qed

lemma parse_examples:
  "without_build_parse ''1.2'' = Inl ValueError"
  "without_build_parse ''1.2.x'' = Inl ValueError"
  "with_build_parse ''1.2.3+'' = Inl ValueError"
  "without_build_parse [] = Inl ValueError"
  "\<not> 0 < find_str ''1.2'' CHR ''+''"
  "\<not> 0 < find_str ''1.2.x'' CHR ''+''"
  "0 < find_str ''1.2.3+'' CHR ''+''"
  "\<not> 0 < find_str [] CHR ''+''"
  by code_simp+

section \<open>The claims of the specification\<close>

subsection \<open>Selecting the bump kind\<close>

text \<open>
  C9. A kind string other than \<^verbatim>\<open>major\<close>, \<^verbatim>\<open>minor\<close>, \<^verbatim>\<open>patch\<close> and \<^verbatim>\<open>build\<close> makes
  \<^verbatim>\<open>set_bump_type\<close> raise (the specification's \<^verbatim>\<open>InvalidBumpKind\<close> is the
  \<^verbatim>\<open>ValueError\<close> of line 52); each of the four recognised strings is accepted and
  selects the member of \<^verbatim>\<open>VersionType\<close> with that value.
\<close>

theorem set_bump_type_kinds:
  "(bt \<notin> {''major'', ''minor'', ''patch'', ''build''} \<longrightarrow> set_bump_type self bt = Inl ValueError)
   \<and> set_bump_type self ''major'' = Inr (self\<lparr>bump_type := Some MAJOR\<rparr>)
   \<and> set_bump_type self ''minor'' = Inr (self\<lparr>bump_type := Some MINOR\<rparr>)
   \<and> set_bump_type self ''patch'' = Inr (self\<lparr>bump_type := Some PATCH\<rparr>)
   \<and> set_bump_type self ''build'' = Inr (self\<lparr>bump_type := Some BUILD\<rparr>)"
  by (simp add: set_bump_type_def value2member_map_def)

theorem set_bump_type_kinds_witness:
  "''release'' \<notin> {''major'', ''minor'', ''patch'', ''build''}
   \<and> set_bump_type (init ''1.0.0'') ''release'' = Inl ValueError
   \<and> set_bump_type (init ''1.0.0'') ''build'' = Inr ((init ''1.0.0'')\<lparr>bump_type := Some BUILD\<rparr>)"
  using set_bump_type_kinds [of "''release''" "init ''1.0.0''"] by simp

subsection \<open>The bump tables\<close>

text \<open>
  C2. On a version with build, that is a text sent down the path with build and read
  there as \<open>(major, minor, patch, build)\<close>, the call returns exactly the text of
  \<open>(major + 1, 0, 0, 1)\<close> for Major, \<open>(major, minor + 1, 0, 1)\<close> for Minor,
  \<open>(major, minor, patch + 1, 1)\<close> for Patch and \<open>(major, minor, patch, build + 1)\<close> for
  Build: the build field is back at 1 whenever one of the other three changes. This holds
  for all integer fields, the non-negative ones with a positive build among them.
\<close>

theorem with_build_bump_table:
  assumes "0 < find_str (current_version self) CHR ''+''"
    and "with_build_parse (current_version self) = Inr (major, minor, patch, build)"
  shows "get_next_version (self\<lparr>bump_type := Some MAJOR\<rparr>)
           = returns (self\<lparr>bump_type := Some MAJOR\<rparr>) (with_build_format (major + 1, 0, 0, 1))
       \<and> get_next_version (self\<lparr>bump_type := Some MINOR\<rparr>)
           = returns (self\<lparr>bump_type := Some MINOR\<rparr>) (with_build_format (major, minor + 1, 0, 1))
       \<and> get_next_version (self\<lparr>bump_type := Some PATCH\<rparr>)
           = returns (self\<lparr>bump_type := Some PATCH\<rparr>) (with_build_format (major, minor, patch + 1, 1))
       \<and> get_next_version (self\<lparr>bump_type := Some BUILD\<rparr>)
           = returns (self\<lparr>bump_type := Some BUILD\<rparr>) (with_build_format (major, minor, patch, build + 1))"
  using assms by (simp add: dispatch_with_build del: with_build_format.simps)

theorem with_build_bump_table_witness:
  "0 < find_str (current_version (init ''1.2.3+5'')) CHR ''+''
   \<and> with_build_parse (current_version (init ''1.2.3+5'')) = Inr (1, 2, 3, 5)
   \<and> get_next_version ((init ''1.2.3+5'')\<lparr>bump_type := Some MAJOR\<rparr>)
        = returns ((init ''1.2.3+5'')\<lparr>bump_type := Some MAJOR\<rparr>) ''2.0.0+1''
   \<and> get_next_version ((init ''1.2.3+5'')\<lparr>bump_type := Some MINOR\<rparr>)
        = returns ((init ''1.2.3+5'')\<lparr>bump_type := Some MINOR\<rparr>) ''1.3.0+1''
   \<and> get_next_version ((init ''1.2.3+5'')\<lparr>bump_type := Some PATCH\<rparr>)
        = returns ((init ''1.2.3+5'')\<lparr>bump_type := Some PATCH\<rparr>) ''1.2.4+1''
   \<and> get_next_version ((init ''1.2.3+5'')\<lparr>bump_type := Some BUILD\<rparr>)
        = returns ((init ''1.2.3+5'')\<lparr>bump_type := Some BUILD\<rparr>) ''1.2.3+6''"
proof -
  have h1: "0 < find_str (current_version (init ''1.2.3+5'')) CHR ''+''"
    by code_simp
  have h2: "with_build_parse (current_version (init ''1.2.3+5'')) = Inr (1, 2, 3, 5)"
    by code_simp
  have f: "with_build_format (1 + 1, 0, 0, 1) = ''2.0.0+1''"
    "with_build_format (1, 2 + 1, 0, 1) = ''1.3.0+1''"
    "with_build_format (1, 2, 3 + 1, 1) = ''1.2.4+1''"
    "with_build_format (1, 2, 3, 5 + 1) = ''1.2.3+6''"
    by code_simp+
  from with_build_bump_table [OF h1 h2] show ?thesis
    unfolding f using h1 h2 by blast
qed

text \<open>
  C3. On a version without build, that is a text sent down the path without build and
  read there as \<open>(major, minor, patch)\<close>, the call returns exactly the text of
  \<open>(major + 1, 0, 0)\<close> for Major, \<open>(major, minor + 1, 0)\<close> for Minor and
  \<open>(major, minor, patch + 1)\<close> for Patch: every field of lower order than the bumped
  one is zero and every field of higher order is unchanged.
\<close>

theorem without_build_bump_table:
  assumes "\<not> 0 < find_str (current_version self) CHR ''+''"
    and "without_build_parse (current_version self) = Inr (major, minor, patch)"
  shows "get_next_version (self\<lparr>bump_type := Some MAJOR\<rparr>)
           = returns (self\<lparr>bump_type := Some MAJOR\<rparr>) (without_build_format (major + 1, 0, 0))
       \<and> get_next_version (self\<lparr>bump_type := Some MINOR\<rparr>)
           = returns (self\<lparr>bump_type := Some MINOR\<rparr>) (without_build_format (major, minor + 1, 0))
       \<and> get_next_version (self\<lparr>bump_type := Some PATCH\<rparr>)
           = returns (self\<lparr>bump_type := Some PATCH\<rparr>) (without_build_format (major, minor, patch + 1))"
  using assms by (simp add: dispatch_without_build del: without_build_format.simps)

theorem without_build_bump_table_witness:
  "\<not> 0 < find_str (current_version (init ''1.2.3'')) CHR ''+''
   \<and> without_build_parse (current_version (init ''1.2.3'')) = Inr (1, 2, 3)
   \<and> get_next_version ((init ''1.2.3'')\<lparr>bump_type := Some MAJOR\<rparr>)
        = returns ((init ''1.2.3'')\<lparr>bump_type := Some MAJOR\<rparr>) ''2.0.0''
   \<and> get_next_version ((init ''1.2.3'')\<lparr>bump_type := Some MINOR\<rparr>)
        = returns ((init ''1.2.3'')\<lparr>bump_type := Some MINOR\<rparr>) ''1.3.0''
   \<and> get_next_version ((init ''1.2.3'')\<lparr>bump_type := Some PATCH\<rparr>)
        = returns ((init ''1.2.3'')\<lparr>bump_type := Some PATCH\<rparr>) ''1.2.4''"
proof -
  have h1: "\<not> 0 < find_str (current_version (init ''1.2.3'')) CHR ''+''"
    by code_simp
  have h2: "without_build_parse (current_version (init ''1.2.3'')) = Inr (1, 2, 3)"
    by code_simp
  have f: "without_build_format (1 + 1, 0, 0) = ''2.0.0''"
    "without_build_format (1, 2 + 1, 0) = ''1.3.0''"
    "without_build_format (1, 2, 3 + 1) = ''1.2.4''"
    by code_simp+
  from without_build_bump_table [OF h1 h2] show ?thesis
    unfolding f using h1 h2 by blast
qed

subsection \<open>A Build bump on a version without build\<close>

text \<open>
  C1. The specification lets a Build bump on a version without build field fail, and the
  docstring of \<^verbatim>\<open>set_bump_type\<close> announces that an error will occur in that situation.
  The \<^verbatim>\<open>match\<close> statement of \<^verbatim>\<open>_get_next_version_without_build\<close> has no case for
  \<^verbatim>\<open>VersionType.BUILD\<close>, so nothing is raised: with the text \<^verbatim>\<open>1.2.3\<close> and the kind
  \<^verbatim>\<open>build\<close> the call succeeds and returns \<^verbatim>\<open>1.2.3\<close>.
\<close>

theorem build_bump_without_build_no_error:
  "set_bump_type (init ''1.2.3'') ''build'' = Inr ((init ''1.2.3'')\<lparr>bump_type := Some BUILD\<rparr>)
   \<and> get_next_version ((init ''1.2.3'')\<lparr>bump_type := Some BUILD\<rparr>)
        = Inr (''1.2.3'', (init ''1.2.3'')\<lparr>bump_type := Some BUILD, next_version := Some ''1.2.3''\<rparr>)"
  by code_simp

text \<open>
  C10. For a text without \<^verbatim>\<open>+\<close> that is read as \<open>(major, minor, patch)\<close>, the call with
  kind Build raises nothing and returns the text of \<open>(major, minor, patch)\<close> itself: no
  field is incremented.
\<close>

theorem build_bump_without_build_unchanged:
  assumes "CHR ''+'' \<notin> set (current_version self)"
    and "without_build_parse (current_version self) = Inr (major, minor, patch)"
    and "bump_type self = Some BUILD"
  shows "get_next_version self = returns self (without_build_format (major, minor, patch))"
proof -
  from assms(1) have "\<not> 0 < find_str (current_version self) CHR ''+''"
    by (simp add: find_str_notin)
  from dispatch_without_build [OF this assms(2) assms(3)] show ?thesis
    by simp
qed

theorem build_bump_without_build_unchanged_witness:
  "CHR ''+'' \<notin> set (current_version ((init ''4.05.6'')\<lparr>bump_type := Some BUILD\<rparr>))
   \<and> without_build_parse (current_version ((init ''4.05.6'')\<lparr>bump_type := Some BUILD\<rparr>))
        = Inr (4, 5, 6)
   \<and> bump_type ((init ''4.05.6'')\<lparr>bump_type := Some BUILD\<rparr>) = Some BUILD
   \<and> get_next_version ((init ''4.05.6'')\<lparr>bump_type := Some BUILD\<rparr>)
        = returns ((init ''4.05.6'')\<lparr>bump_type := Some BUILD\<rparr>) ''4.5.6''"
proof -
  let ?self = "(init ''4.05.6'')\<lparr>bump_type := Some BUILD\<rparr>"
  have h1: "CHR ''+'' \<notin> set (current_version ?self)"
    by (simp add: init_def)
  have h2: "without_build_parse (current_version ?self) = Inr (4, 5, 6)"
    by code_simp
  have h3: "bump_type ?self = Some BUILD"
    by simp
  have f: "without_build_format (4, 5, 6) = ''4.5.6''"
    by code_simp
  from build_bump_without_build_unchanged [OF h1 h2 h3] show ?thesis
    unfolding f using h1 h2 h3 by blast
qed

subsection \<open>Round trip and shape\<close>

text \<open>
  C5. Parsing what the f-strings print gives the fields back: the text of
  \<open>(major, minor, patch)\<close> contains no \<^verbatim>\<open>+\<close> at a positive index, so it is sent down the
  path without build, whose parsing lines read \<open>(major, minor, patch)\<close>; the text of
  \<open>(major, minor, patch, build)\<close> is sent down the path with build, whose parsing lines
  read \<open>(major, minor, patch, build)\<close>. This holds for all integers, so in particular for
  the valid versions (non-negative fields, positive build).
\<close>

theorem parse_format_roundtrip:
  "\<not> 0 < find_str (without_build_format (major, minor, patch)) CHR ''+''
   \<and> without_build_parse (without_build_format (major, minor, patch)) = Inr (major, minor, patch)
   \<and> 0 < find_str (with_build_format (major, minor, patch, build)) CHR ''+''
   \<and> with_build_parse (with_build_format (major, minor, patch, build))
        = Inr (major, minor, patch, build)"
proof -
  have "\<not> 0 < find_str (without_build_format (major, minor, patch)) CHR ''+''"
    by (simp add: find_without_build_format del: without_build_format.simps)
  moreover note without_build_roundtrip [of "(major, minor, patch)"]
    find_with_build_format [of "(major, minor, patch, build)"]
    with_build_roundtrip [of "(major, minor, patch, build)"]
  ultimately show ?thesis by blast
qed

text \<open>
  C7. A successful call keeps the shape. When the current text is sent down the path with
  build, the returned text contains exactly one \<^verbatim>\<open>+\<close>, at a positive index, the parsing
  lines of the path with build read four fields from it, and it is the text of these four
  fields: a version with build again. Otherwise the returned text contains no \<^verbatim>\<open>+\<close>,
  the parsing lines of the path without build read three fields from it, and it is the
  text of these three fields: a version without build again.
\<close>

theorem shape_preserved:
  assumes "get_next_version self = Inr (s, self')"
  shows "if 0 < find_str (current_version self) CHR ''+''
         then 0 < find_str s CHR ''+'' \<and> count_list s CHR ''+'' = 1
              \<and> (case with_build_parse s of
                    Inl e \<Rightarrow> False | Inr v' \<Rightarrow> with_build_format v' = s)
         else \<not> 0 < find_str s CHR ''+'' \<and> count_list s CHR ''+'' = 0
              \<and> (case without_build_parse s of
                    Inl e \<Rightarrow> False | Inr v' \<Rightarrow> without_build_format v' = s)"
proof (cases "0 < find_str (current_version self) CHR ''+''")
  case True
  with assms have "get_next_version_with_build self = Inr (s, self')"
    by (simp add: get_next_version_def)
  then obtain v k where s: "s = with_build_format (with_build_match k v)"
    by (rule get_next_version_with_build_Inr)
  have "with_build_parse s = Inr (with_build_match k v)"
    unfolding s by (rule with_build_roundtrip)
  then have "case with_build_parse s of
      Inl e \<Rightarrow> False | Inr v' \<Rightarrow> with_build_format v' = s"
    by (simp only: sum.case s)
  moreover have "0 < find_str s CHR ''+''" and "count_list s CHR ''+'' = 1"
    unfolding s by (rule find_with_build_format, rule count_with_build_format)
  ultimately show ?thesis
    using True by (simp only: if_True simp_thms)
next
  case False
  with assms have "get_next_version_without_build self = Inr (s, self')"
    by (simp add: get_next_version_def)
  then obtain v k where s: "s = without_build_format (without_build_match k v)"
    by (rule get_next_version_without_build_Inr)
  have "without_build_parse s = Inr (without_build_match k v)"
    unfolding s by (rule without_build_roundtrip)
  then have p: "case without_build_parse s of
      Inl e \<Rightarrow> False | Inr v' \<Rightarrow> without_build_format v' = s"
    by (simp only: sum.case s)
  have "CHR ''+'' \<notin> set s"
    unfolding s by (rule without_build_format_no_plus)
  then have "find_str s CHR ''+'' = - 1" and "count_list s CHR ''+'' = 0"
    by (simp_all add: find_str_notin)
  then have "\<not> 0 < find_str s CHR ''+''" and "count_list s CHR ''+'' = 0"
    by simp_all
  with p show ?thesis
    using False by (simp only: if_False simp_thms)
qed

theorem shape_preserved_witness:
  "get_next_version ((init ''1.2.3+5'')\<lparr>bump_type := Some PATCH\<rparr>)
     = Inr (''1.2.4+1'',
            (init ''1.2.3+5'')\<lparr>bump_type := Some PATCH, next_version := Some ''1.2.4+1''\<rparr>)
   \<and> 0 < find_str (current_version ((init ''1.2.3+5'')\<lparr>bump_type := Some PATCH\<rparr>)) CHR ''+''
   \<and> 0 < find_str ''1.2.4+1'' CHR ''+'' \<and> count_list ''1.2.4+1'' CHR ''+'' = 1
   \<and> with_build_parse ''1.2.4+1'' = Inr (1, 2, 4, 1)
   \<and> with_build_format (1, 2, 4, 1) = ''1.2.4+1''
   \<and> get_next_version ((init ''1.2.3'')\<lparr>bump_type := Some MINOR\<rparr>)
     = Inr (''1.3.0'',
            (init ''1.2.3'')\<lparr>bump_type := Some MINOR, next_version := Some ''1.3.0''\<rparr>)
   \<and> \<not> 0 < find_str (current_version ((init ''1.2.3'')\<lparr>bump_type := Some MINOR\<rparr>)) CHR ''+''
   \<and> \<not> 0 < find_str ''1.3.0'' CHR ''+'' \<and> count_list ''1.3.0'' CHR ''+'' = 0
   \<and> without_build_parse ''1.3.0'' = Inr (1, 3, 0)
   \<and> without_build_format (1, 3, 0) = ''1.3.0''"
proof -
  let ?built = "(init ''1.2.3+5'')\<lparr>bump_type := Some PATCH\<rparr>"
  let ?unbuilt = "(init ''1.2.3'')\<lparr>bump_type := Some MINOR\<rparr>"
  have h: "get_next_version ?built
     = Inr (''1.2.4+1'',
            (init ''1.2.3+5'')\<lparr>bump_type := Some PATCH, next_version := Some ''1.2.4+1''\<rparr>)"
    by code_simp
  have c: "0 < find_str (current_version ?built) CHR ''+''"
    by code_simp
  have p: "with_build_parse ''1.2.4+1'' = Inr (1, 2, 4, 1)"
    by code_simp
  have g: "get_next_version ?unbuilt
     = Inr (''1.3.0'',
            (init ''1.2.3'')\<lparr>bump_type := Some MINOR, next_version := Some ''1.3.0''\<rparr>)"
    by code_simp
  have d: "\<not> 0 < find_str (current_version ?unbuilt) CHR ''+''"
    by code_simp
  have q: "without_build_parse ''1.3.0'' = Inr (1, 3, 0)"
    by code_simp
  from shape_preserved [OF h] have
    "0 < find_str ''1.2.4+1'' CHR ''+'' \<and> count_list ''1.2.4+1'' CHR ''+'' = 1
     \<and> with_build_format (1, 2, 4, 1) = ''1.2.4+1''"
    unfolding p by (simp only: c if_True sum.case simp_thms)
  moreover from shape_preserved [OF g] have
    "\<not> 0 < find_str ''1.3.0'' CHR ''+'' \<and> count_list ''1.3.0'' CHR ''+'' = 0
     \<and> without_build_format (1, 3, 0) = ''1.3.0''"
    unfolding q by (simp only: d if_False sum.case simp_thms)
  ultimately show ?thesis
    using h c p g d q by blast
qed

subsection \<open>Monotonicity\<close>

text \<open>
  C6, as the code has it. Whenever a call succeeds, other than a Build bump on the path
  without build, the text returned parses again on the same path, and its tuple of fields
  is lexicographically strictly greater than the tuple of the current text: the first
  field that differs has grown. Fields below the bumped one are reset (to 0, the build
  field to 1), so a single field can decrease. Integers are unbounded, so nothing wraps.
\<close>

theorem bump_lex_increasing:
  assumes "get_next_version self = Inr (s, self')" and "bump_type self = Some k"
  shows "if 0 < find_str (current_version self) CHR ''+''
         then (case (with_build_parse (current_version self), with_build_parse s) of
                 (Inr v, Inr v') \<Rightarrow> lex_less4 v v' | _ \<Rightarrow> False)
         else k = BUILD \<or>
              (case (without_build_parse (current_version self), without_build_parse s) of
                 (Inr v, Inr v') \<Rightarrow> lex_less3 v v' | _ \<Rightarrow> False)"
proof (cases "0 < find_str (current_version self) CHR ''+''")
  case True
  with assms have "get_next_version_with_build self = Inr (s, self')"
    by (simp add: get_next_version_def)
  then obtain v k' where v: "with_build_parse (current_version self) = Inr v"
    and s: "s = with_build_format (with_build_match k' v)"
    by (rule get_next_version_with_build_Inr)
  have "with_build_parse s = Inr (with_build_match k' v)"
    unfolding s by (rule with_build_roundtrip)
  with v True show ?thesis
    by (simp add: lex_less4_match)
next
  case False
  with assms have "get_next_version_without_build self = Inr (s, self')"
    by (simp add: get_next_version_def)
  then obtain v k' where v: "without_build_parse (current_version self) = Inr v"
    and k': "bump_type self = Some k'"
    and s: "s = without_build_format (without_build_match k' v)"
    by (rule get_next_version_without_build_Inr)
  from k' assms(2) have kk: "k' = k" by simp
  have "without_build_parse s = Inr (without_build_match k v)"
    unfolding s kk by (rule without_build_roundtrip)
  with v False lex_less3_match [of k v] show ?thesis
    by auto
qed

theorem bump_lex_increasing_witness:
  "get_next_version ((init ''1.9.3'')\<lparr>bump_type := Some MINOR\<rparr>)
     = Inr (''1.10.0'',
            (init ''1.9.3'')\<lparr>bump_type := Some MINOR, next_version := Some ''1.10.0''\<rparr>)
   \<and> bump_type ((init ''1.9.3'')\<lparr>bump_type := Some MINOR\<rparr>) = Some MINOR
   \<and> \<not> 0 < find_str (current_version ((init ''1.9.3'')\<lparr>bump_type := Some MINOR\<rparr>)) CHR ''+''
   \<and> without_build_parse (current_version ((init ''1.9.3'')\<lparr>bump_type := Some MINOR\<rparr>))
        = Inr (1, 9, 3)
   \<and> without_build_parse ''1.10.0'' = Inr (1, 10, 0)
   \<and> lex_less3 (1, 9, 3) (1, 10, 0)"
proof -
  let ?self = "(init ''1.9.3'')\<lparr>bump_type := Some MINOR\<rparr>"
  have h: "get_next_version ?self
     = Inr (''1.10.0'',
            (init ''1.9.3'')\<lparr>bump_type := Some MINOR, next_version := Some ''1.10.0''\<rparr>)"
    by code_simp
  have k: "bump_type ?self = Some MINOR"
    by simp
  have c: "\<not> 0 < find_str (current_version ?self) CHR ''+''"
    by code_simp
  have p: "without_build_parse (current_version ?self) = Inr (1, 9, 3)"
    "without_build_parse ''1.10.0'' = Inr (1, 10, 0)"
    by code_simp+
  from bump_lex_increasing [OF h k] have "lex_less3 (1, 9, 3) (1, 10, 0)"
    unfolding p by (simp only: c if_False) simp
  with h k c p show ?thesis by blast
qed

text \<open>
  C6 as stated also says that no field ever decreases. A Major bump of \<^verbatim>\<open>1.2.3\<close>
  returns \<^verbatim>\<open>2.0.0\<close>: the minor field goes from 2 to 0.
\<close>

theorem no_field_decreases_counterexample:
  "get_next_version ((init ''1.2.3'')\<lparr>bump_type := Some MAJOR\<rparr>)
     = returns ((init ''1.2.3'')\<lparr>bump_type := Some MAJOR\<rparr>) ''2.0.0''
   \<and> without_build_parse ''1.2.3'' = Inr (1, 2, 3)
   \<and> without_build_parse ''2.0.0'' = Inr (2, 0, 0)
   \<and> (0::int) < 2"
  by code_simp

subsection \<open>Shape detection\<close>

text \<open>
  C8, as the code has it. Line 76 tests \<^verbatim>\<open>find('+') > 0\<close>: the text is sent down the
  path with build exactly when it contains a \<^verbatim>\<open>+\<close> and does not begin with one; a text
  without \<^verbatim>\<open>+\<close> or with \<^verbatim>\<open>+\<close> as its first character is sent down the path without
  build. On a text that contains \<^verbatim>\<open>+\<close>, the parsing lines of the path with build take
  the text before the first \<^verbatim>\<open>+\<close> as the version part and the text between the first
  \<^verbatim>\<open>+\<close> and the next one (or the end) as the build field.
\<close>

theorem shape_detection:
  "get_next_version self =
     (if CHR ''+'' \<in> set (current_version self) \<and> take 1 (current_version self) \<noteq> ''+''
      then get_next_version_with_build self
      else get_next_version_without_build self)
   \<and> (CHR ''+'' \<in> set (current_version self) \<longrightarrow>
        subscript (split_str (current_version self) CHR ''+'') 0
          = Inr (version_part (current_version self))
        \<and> subscript (split_str (current_version self) CHR ''+'') 1
          = Inr (build_part (current_version self)))"
proof -
  have "take 1 (current_version self) \<noteq> ''+'' \<longleftrightarrow> hd (current_version self) \<noteq> CHR ''+''"
    if "CHR ''+'' \<in> set (current_version self)"
    using that by (cases "current_version self") auto
  then have "0 < find_str (current_version self) CHR ''+'' \<longleftrightarrow>
      CHR ''+'' \<in> set (current_version self) \<and> take 1 (current_version self) \<noteq> ''+''"
    unfolding find_str_pos_iff by blast
  then have d: "get_next_version self =
     (if CHR ''+'' \<in> set (current_version self) \<and> take 1 (current_version self) \<noteq> ''+''
      then get_next_version_with_build self
      else get_next_version_without_build self)"
    by (simp only: get_next_version_def)
  from split_str_two [of "CHR ''+''" "current_version self"]
  have "CHR ''+'' \<in> set (current_version self) \<longrightarrow>
        subscript (split_str (current_version self) CHR ''+'') 0
          = Inr (version_part (current_version self))
        \<and> subscript (split_str (current_version self) CHR ''+'') 1
          = Inr (build_part (current_version self))"
    unfolding version_part_def build_part_def by blast
  with d show ?thesis by (rule conjI)
qed

theorem shape_detection_witness:
  "CHR ''+'' \<in> set (current_version (init ''1.2.3+4+5''))
   \<and> take 1 (current_version (init ''1.2.3+4+5'')) \<noteq> ''+''
   \<and> get_next_version (init ''1.2.3+4+5'') = get_next_version_with_build (init ''1.2.3+4+5'')
   \<and> subscript (split_str (current_version (init ''1.2.3+4+5'')) CHR ''+'') 0 = Inr ''1.2.3''
   \<and> subscript (split_str (current_version (init ''1.2.3+4+5'')) CHR ''+'') 1 = Inr ''4''"
proof -
  have h: "CHR ''+'' \<in> set (current_version (init ''1.2.3+4+5''))"
    "take 1 (current_version (init ''1.2.3+4+5'')) \<noteq> ''+''"
    by (simp_all add: init_def)
  have p: "version_part (current_version (init ''1.2.3+4+5'')) = ''1.2.3''"
    "build_part (current_version (init ''1.2.3+4+5'')) = ''4''"
    by (simp_all add: init_def version_part_def build_part_def)
  from shape_detection [of "init ''1.2.3+4+5''"] h show ?thesis
    unfolding p by (simp only: simp_thms if_True)
qed

text \<open>
  C8 as stated sends every text that contains \<^verbatim>\<open>+\<close> down the path with build, also one
  that begins with \<^verbatim>\<open>+\<close>. The text \<^verbatim>\<open>+1.2.3\<close> contains \<^verbatim>\<open>+\<close>, yet the call takes the
  path without build and returns \<^verbatim>\<open>1.2.4\<close> for a Patch bump, where the path with build
  would have raised.
\<close>

theorem leading_plus_counterexample:
  "CHR ''+'' \<in> set (current_version ((init ''+1.2.3'')\<lparr>bump_type := Some PATCH\<rparr>))
   \<and> get_next_version ((init ''+1.2.3'')\<lparr>bump_type := Some PATCH\<rparr>)
        = get_next_version_without_build ((init ''+1.2.3'')\<lparr>bump_type := Some PATCH\<rparr>)
   \<and> get_next_version ((init ''+1.2.3'')\<lparr>bump_type := Some PATCH\<rparr>)
        = returns ((init ''+1.2.3'')\<lparr>bump_type := Some PATCH\<rparr>) ''1.2.4''
   \<and> get_next_version_with_build ((init ''+1.2.3'')\<lparr>bump_type := Some PATCH\<rparr>) = Inl ValueError"
  by code_simp

subsection \<open>Malformed texts\<close>

text \<open>
  C4, as the code has it. With a bump kind selected, the call raises, and then always
  \<^verbatim>\<open>ValueError\<close> (the specification's \<^verbatim>\<open>FormatError\<close>), exactly when the text is
  malformed: the version part (the text before the first \<^verbatim>\<open>+\<close> on the path with build,
  the whole text otherwise) does not split at the dots into exactly three pieces, or
  \<^verbatim>\<open>int\<close> rejects one of these pieces or, on the path with build, the text between the
  first \<^verbatim>\<open>+\<close> and the next. The texts \<^verbatim>\<open>1.2\<close>, \<^verbatim>\<open>1.2.x\<close>, \<^verbatim>\<open>1.2.3+\<close> and the empty
  text all raise. The number of pieces between \<^verbatim>\<open>+\<close> signs is not checked, and \<^verbatim>\<open>int\<close>
  accepts a sign.
\<close>

theorem parse_failure_iff:
  assumes "bump_type self = Some k"
  shows "(malformed (current_version self) \<longrightarrow> get_next_version self = Inl ValueError)
       \<and> (\<not> malformed (current_version self) \<longrightarrow> \<not> isl (get_next_version self))
       \<and> get_next_version (self\<lparr>current_version := ''1.2''\<rparr>) = Inl ValueError
       \<and> get_next_version (self\<lparr>current_version := ''1.2.x''\<rparr>) = Inl ValueError
       \<and> get_next_version (self\<lparr>current_version := ''1.2.3+''\<rparr>) = Inl ValueError
       \<and> get_next_version (self\<lparr>current_version := ''''\<rparr>) = Inl ValueError"
proof -
  let ?cur = "current_version self"
  have 1: "get_next_version self = Inl ValueError" if "malformed ?cur"
    using that parse_malformed(2,3) [of ?cur]
    by (cases "0 < find_str ?cur CHR ''+''")
      (simp_all add: get_next_version_def get_next_version_with_build_def
        get_next_version_without_build_def)
  have 2: "\<not> isl (get_next_version self)" if "\<not> malformed ?cur"
    using that parse_malformed(1) [of ?cur] assms
    by (cases "0 < find_str ?cur CHR ''+''")
      (auto simp: get_next_version_def get_next_version_with_build_def
        get_next_version_without_build_def Let_def split: sum.splits)
  have 3: "get_next_version (self\<lparr>current_version := ''1.2''\<rparr>) = Inl ValueError"
    "get_next_version (self\<lparr>current_version := ''1.2.x''\<rparr>) = Inl ValueError"
    "get_next_version (self\<lparr>current_version := ''1.2.3+''\<rparr>) = Inl ValueError"
    "get_next_version (self\<lparr>current_version := ''''\<rparr>) = Inl ValueError"
    using parse_examples
    by (simp_all add: get_next_version_def get_next_version_with_build_def
        get_next_version_without_build_def)
  from 1 2 3 show ?thesis by blast
qed

theorem parse_failure_iff_witness:
  "bump_type ((init ''1.2.x'')\<lparr>bump_type := Some PATCH\<rparr>) = Some PATCH
   \<and> malformed (current_version ((init ''1.2.x'')\<lparr>bump_type := Some PATCH\<rparr>))
   \<and> get_next_version ((init ''1.2.x'')\<lparr>bump_type := Some PATCH\<rparr>) = Inl ValueError
   \<and> bump_type ((init ''1.2.3+4+5'')\<lparr>bump_type := Some PATCH\<rparr>) = Some PATCH
   \<and> \<not> malformed (current_version ((init ''1.2.3+4+5'')\<lparr>bump_type := Some PATCH\<rparr>))
   \<and> \<not> isl (get_next_version ((init ''1.2.3+4+5'')\<lparr>bump_type := Some PATCH\<rparr>))"
proof -
  let ?bad = "(init ''1.2.x'')\<lparr>bump_type := Some PATCH\<rparr>"
  let ?good = "(init ''1.2.3+4+5'')\<lparr>bump_type := Some PATCH\<rparr>"
  have k: "bump_type ?bad = Some PATCH" "bump_type ?good = Some PATCH"
    by simp_all
  have m: "malformed (current_version ?bad)" "\<not> malformed (current_version ?good)"
    by code_simp+
  from parse_failure_iff [OF k(1)] parse_failure_iff [OF k(2)] k m show ?thesis
    by blast
qed

text \<open>
  C4 as stated also lets a text with more than two pieces between \<^verbatim>\<open>+\<close> signs and a
  text with a negative field fail. The text \<^verbatim>\<open>1.2.3+4+5\<close> splits at \<^verbatim>\<open>+\<close> into three
  pieces and a Patch bump returns \<^verbatim>\<open>1.2.4+1\<close>; the text \<^verbatim>\<open>-1.2.3\<close> is read as
  \<open>(-1, 2, 3)\<close> and a Patch bump returns \<^verbatim>\<open>-1.2.4\<close>.
\<close>

theorem extra_plus_and_negative_counterexample:
  "length (split_str ''1.2.3+4+5'' CHR ''+'') = 3
   \<and> get_next_version ((init ''1.2.3+4+5'')\<lparr>bump_type := Some PATCH\<rparr>)
        = returns ((init ''1.2.3+4+5'')\<lparr>bump_type := Some PATCH\<rparr>) ''1.2.4+1''
   \<and> without_build_parse ''-1.2.3'' = Inr (- 1, 2, 3)
   \<and> get_next_version ((init ''-1.2.3'')\<lparr>bump_type := Some PATCH\<rparr>)
        = returns ((init ''-1.2.3'')\<lparr>bump_type := Some PATCH\<rparr>) ''-1.2.4''"
  by code_simp

end
